theory Spec2Isabelle
  imports Complex_Main
begin

section \<open>The retrieval layer: drivers, circuit breaker, cache and manager\<close>

text \<open>
  A shallow embedding of \<^verbatim>\<open>lib/memory/embeddings.ts\<close> and
  \<^verbatim>\<open>lib/memory/rag-manager.ts\<close>. Every call that leaves the process (reading
  the environment, the clock, the embeddings endpoint, the postgres handle) is an input of
  the model, collected in the record \<open>world\<close>: one value of it says what each external
  call answers during one invocation. A JavaScript exception or rejected promise is the
  \<open>Inl\<close> of a sum type. An awaited call is taken to settle (it resolves or it rejects).
  JavaScript numbers that hold millisecond timestamps and counters are \<open>int\<close>; distances
  and confidences are \<open>real\<close>.
\<close>

subsection \<open>JavaScript values and \<^verbatim>\<open>JSON.stringify\<close>\<close>

datatype error = Error string | TypeError string

text \<open>
  The values a \<^verbatim>\<open>Record<string, any>\<close> can hold, as far as the serialiser tells
  them apart: JSON data, and BigInt, which \<^verbatim>\<open>JSON.stringify\<close> refuses with a
  TypeError. Numbers are the integral ones (printed in plain decimal), strings are byte
  strings; \<^verbatim>\<open>undefined\<close>, functions, symbols and cyclic objects are not represented.
\<close>

datatype jsvalue =
    JSNull
  | JSBool bool
  | JSNumber int
  | JSString string
  | JSBigInt int
  | JSArray "jsvalue list"
  | JSObject "(string \<times> jsvalue) list"

type_synonym hints = "(string \<times> jsvalue) list"

definition digit_char :: "nat \<Rightarrow> char" where
  "digit_char d = char_of (48 + d)"

fun show_nat :: "nat \<Rightarrow> string" where
  "show_nat n = (if n < 10 then [digit_char n] else show_nat (n div 10) @ [digit_char (n mod 10)])"

declare show_nat.simps [simp del]

definition show_int :: "int \<Rightarrow> string" where
  "show_int i = (if i < 0 then CHR ''-'' # show_nat (nat (- i)) else show_nat (nat i))"

definition hex_char :: "nat \<Rightarrow> char" where
  "hex_char d = (if d < 10 then char_of (48 + d) else char_of (87 + d))"

text \<open>QuoteJSONString: the two-character escapes, \<^verbatim>\<open>\u00XX\<close> for the other
  control characters, every other character as it is.\<close>

definition quote_char :: "char \<Rightarrow> string" where
  "quote_char c =
     (let n = (of_char c :: nat) in
      if n = 8 then [CHR 0x5C, CHR ''b'']
      else if n = 9 then [CHR 0x5C, CHR ''t'']
      else if n = 10 then [CHR 0x5C, CHR ''n'']
      else if n = 12 then [CHR 0x5C, CHR ''f'']
      else if n = 13 then [CHR 0x5C, CHR ''r'']
      else if n = 34 then [CHR 0x5C, CHR 0x22]
      else if n = 92 then [CHR 0x5C, CHR 0x5C]
      else if n < 32 then [CHR 0x5C, CHR ''u'', CHR ''0'', CHR ''0'', hex_char (n div 16), hex_char (n mod 16)]
      else [c])"

definition quote :: "string \<Rightarrow> string" where
  "quote s = [CHR 0x22] @ concat (map quote_char s) @ [CHR 0x22]"

fun join :: "string \<Rightarrow> string list \<Rightarrow> string" where
  "join sep [] = []"
| "join sep [x] = x"
| "join sep (x # y # ys) = x @ sep @ join sep (y # ys)"

fun JSON_stringify :: "jsvalue \<Rightarrow> error + string"
  and stringify_elements :: "jsvalue list \<Rightarrow> error + string list"
  and stringify_properties :: "(string \<times> jsvalue) list \<Rightarrow> error + string list"
where
  "JSON_stringify JSNull = Inr ''null''"
| "JSON_stringify (JSBool b) = Inr (if b then ''true'' else ''false'')"
| "JSON_stringify (JSNumber n) = Inr (show_int n)"
| "JSON_stringify (JSString s) = Inr (quote s)"
| "JSON_stringify (JSBigInt n) = Inl (TypeError ''Do not know how to serialize a BigInt'')"
| "JSON_stringify (JSArray xs) =
     (case stringify_elements xs of
        Inl e \<Rightarrow> Inl e
      | Inr parts \<Rightarrow> Inr (''['' @ join '','' parts @ '']''))"
| "JSON_stringify (JSObject ps) =
     (case stringify_properties ps of
        Inl e \<Rightarrow> Inl e
      | Inr parts \<Rightarrow> Inr (''{'' @ join '','' parts @ ''}''))"
| "stringify_elements [] = Inr []"
| "stringify_elements (x # xs) =
     (case JSON_stringify x of
        Inl e \<Rightarrow> Inl e
      | Inr s \<Rightarrow> (case stringify_elements xs of Inl e \<Rightarrow> Inl e | Inr ss \<Rightarrow> Inr (s # ss)))"
| "stringify_properties [] = Inr []"
| "stringify_properties (p # ps) =
     (case JSON_stringify (snd p) of
        Inl e \<Rightarrow> Inl e
      | Inr s \<Rightarrow>
          (case stringify_properties ps of
             Inl e \<Rightarrow> Inl e
           | Inr ss \<Rightarrow> Inr ((quote (fst p) @ '':'' @ s) # ss)))"

text \<open>\<^verbatim>\<open>!s\<close> for an optional string: \<^verbatim>\<open>undefined\<close> and the empty string are falsy.\<close>

definition falsy :: "string option \<Rightarrow> bool" where
  "falsy s = (case s of None \<Rightarrow> True | Some t \<Rightarrow> t = [])"

subsection \<open>The outside world of one invocation\<close>

record http_response =
  res_ok :: bool
  res_status :: nat
  res_text :: "error + string"
  res_json_embedding :: "error + real list option"

text \<open>
  A row of \<^verbatim>\<open>memories\<close> as the driver reads it: \<open>r_distance\<close> is \<open>None\<close> for a
  null or missing column.
\<close>

record row =
  r_key :: string
  r_layer :: string
  r_content :: jsvalue
  r_updated_at :: "int option"
  r_distance :: "real option"

text \<open>
  \<open>POSTGRES_URL\<close>, \<open>OPENAI_API_KEY\<close>: the environment variables. \<open>now_retrieve\<close>,
  \<open>now_canTry\<close>, \<open>now_onFailure\<close>: what \<^verbatim>\<open>Date.now()\<close> reads in
  \<^verbatim>\<open>retrieve\<close>, in \<^verbatim>\<open>canTry\<close> and in \<^verbatim>\<open>onFailure\<close>.
  \<open>postgres_connect\<close>: the error \<^verbatim>\<open>postgres(url)\<close> throws, if any.
  \<open>fetch_embeddings\<close>: how the POST to the embeddings endpoint settles.
  \<open>sql_select\<close>: how the SELECT settles. \<open>sql_end\<close>: the error
  \<^verbatim>\<open>sql.end\<close> rejects with, if any.
\<close>

record world =
  POSTGRES_URL :: "string option"
  OPENAI_API_KEY :: "string option"
  now_retrieve :: int
  now_canTry :: int
  now_onFailure :: int
  postgres_connect :: "error option"
  fetch_embeddings :: "error + http_response"
  sql_select :: "error + row list"
  sql_end :: "error option"

subsection \<open>\<^verbatim>\<open>embedText\<close>\<close>

definition embedText :: "world \<Rightarrow> string \<Rightarrow> string option \<Rightarrow> error + real list" where
  "embedText w input apiKey =
     (let key = (if falsy apiKey then OPENAI_API_KEY w else apiKey) in
      if falsy key then Inl (Error ''OPENAI_API_KEY is required to run embeddings'')
      else
        (case fetch_embeddings w of
           Inl e \<Rightarrow> Inl e
         | Inr res \<Rightarrow>
             if \<not> res_ok res then
               (case res_text res of
                  Inl e \<Rightarrow> Inl e
                | Inr txt \<Rightarrow>
                    Inl (Error (''OpenAI embeddings failed: '' @ show_nat (res_status res) @ '' '' @ txt)))
             else
               (case res_json_embedding res of
                  Inl e \<Rightarrow> Inl e
                | Inr None \<Rightarrow> Inl (Error ''Invalid embedding response'')
                | Inr (Some vec) \<Rightarrow> Inr vec)))"

subsection \<open>Results\<close>

datatype RAGSource = vectorDB | webSearch | internalDocs | partnerAPIs

text \<open>The metadata object of a snippet; \<open>md_distance\<close> is \<open>None\<close> when the
  property is absent or null.\<close>

record snippet_metadata =
  md_key :: string
  md_layer :: string
  md_updatedAt :: "int option"
  md_distance :: "real option"

record RAGSnippet =
  source :: RAGSource
  content :: string
  confidence :: real
  metadata :: "snippet_metadata option"

record RAGCitation =
  cit_source :: string
  cit_url :: "string option"
  cit_title :: "string option"

record RAGResult =
  ok :: bool
  degraded :: "bool option"
  snippets :: "RAGSnippet list"
  citations :: "RAGCitation list option"

text \<open>The literal \<^verbatim>\<open>{ ok: false, degraded: true, snippets: [] }\<close>.\<close>

definition failed_result :: RAGResult where
  "failed_result = \<lparr>ok = False, degraded = Some True, snippets = [], citations = None\<rparr>"

subsection \<open>The drivers\<close>

text \<open>\<^verbatim>\<open>typeof r.content === "string" ? r.content : JSON.stringify(r.content)\<close>\<close>

definition content_text :: "jsvalue \<Rightarrow> error + string" where
  "content_text v = (case v of JSString s \<Rightarrow> Inr s | _ \<Rightarrow> JSON_stringify v)"

text \<open>\<^verbatim>\<open>rows.map(f)\<close> where \<open>f\<close> may throw: the first exception ends the map.\<close>

fun map_rows :: "(row \<Rightarrow> error + RAGSnippet) \<Rightarrow> row list \<Rightarrow> error + RAGSnippet list" where
  "map_rows f [] = Inr []"
| "map_rows f (r # rs) =
     (case f r of
        Inl e \<Rightarrow> Inl e
      | Inr s \<Rightarrow> (case map_rows f rs of Inl e \<Rightarrow> Inl e | Inr ss \<Rightarrow> Inr (s # ss)))"

text \<open>\<^verbatim>\<open>try { body } finally { await sql.end({ timeout: 1 }) }\<close>: an error
  of the cleanup replaces the outcome of the body.\<close>

definition finally_end :: "world \<Rightarrow> error + 'a \<Rightarrow> error + 'a" where
  "finally_end w body = (case sql_end w of Some e \<Rightarrow> Inl e | None \<Rightarrow> body)"

definition pgIlike_snippet :: "row \<Rightarrow> error + RAGSnippet" where
  "pgIlike_snippet r =
     (case content_text (r_content r) of
        Inl e \<Rightarrow> Inl e
      | Inr c \<Rightarrow>
          Inr \<lparr>source = internalDocs, content = c, confidence = 6 / 10,
               metadata = Some \<lparr>md_key = r_key r, md_layer = r_layer r,
                                 md_updatedAt = r_updated_at r, md_distance = None\<rparr>\<rparr>)"

text \<open>
  \<^verbatim>\<open>PgIlikeDriver.search\<close>. The text of the query only reaches the store, whose
  answer is \<open>sql_select w\<close>; there is no \<^verbatim>\<open>catch\<close>.
\<close>

definition PgIlikeDriver_search :: "world \<Rightarrow> string \<Rightarrow> hints option \<Rightarrow> error + RAGResult" where
  "PgIlikeDriver_search w query hints =
     (if falsy (POSTGRES_URL w) then Inr failed_result
      else
        (case postgres_connect w of
           Some e \<Rightarrow> Inl e
         | None \<Rightarrow>
             finally_end w
               (case sql_select w of
                  Inl e \<Rightarrow> Inl e
                | Inr rows \<Rightarrow>
                    (case map_rows pgIlike_snippet rows of
                       Inl e \<Rightarrow> Inl e
                     | Inr snips \<Rightarrow>
                         Inr \<lparr>ok = True, degraded = None, snippets = snips, citations = None\<rparr>))))"

text \<open>\<^verbatim>\<open>Number(r.distance || 0)\<close>: a null, missing or zero distance is 0.\<close>

definition distance_or_zero :: "real option \<Rightarrow> real" where
  "distance_or_zero d = (case d of None \<Rightarrow> 0 | Some x \<Rightarrow> if x = 0 then 0 else x)"

definition vectorDb_snippet :: "row \<Rightarrow> error + RAGSnippet" where
  "vectorDb_snippet r =
     (case content_text (r_content r) of
        Inl e \<Rightarrow> Inl e
      | Inr c \<Rightarrow>
          Inr \<lparr>source = internalDocs, content = c,
               confidence = max 0 (1 - distance_or_zero (r_distance r)),
               metadata = Some \<lparr>md_key = r_key r, md_layer = r_layer r,
                                 md_updatedAt = r_updated_at r, md_distance = r_distance r\<rparr>\<rparr>)"

text \<open>The \<^verbatim>\<open>try\<close> block of \<^verbatim>\<open>VectorDbDriver.search\<close>. For a string,
  \<^verbatim>\<open>query || ""\<close> is the string itself; the vector only reaches the store, whose
  answer is \<open>sql_select w\<close>.\<close>

definition vectorDb_try :: "world \<Rightarrow> string \<Rightarrow> error + RAGResult" where
  "vectorDb_try w query =
     (case embedText w query None of
        Inl e \<Rightarrow> Inl e
      | Inr qvec \<Rightarrow>
          (case sql_select w of
             Inl e \<Rightarrow> Inl e
           | Inr rows \<Rightarrow>
               (case map_rows vectorDb_snippet rows of
                  Inl e \<Rightarrow> Inl e
                | Inr snips \<Rightarrow>
                    Inr \<lparr>ok = True, degraded = None, snippets = snips, citations = None\<rparr>)))"

text \<open>\<^verbatim>\<open>VectorDbDriver.search\<close>: \<^verbatim>\<open>try ... catch (e) { return failed } finally { end }\<close>.\<close>

definition VectorDbDriver_search :: "world \<Rightarrow> string \<Rightarrow> hints option \<Rightarrow> error + RAGResult" where
  "VectorDbDriver_search w query hints =
     (if falsy (POSTGRES_URL w) then Inr failed_result
      else
        (case postgres_connect w of
           Some e \<Rightarrow> Inl e
         | None \<Rightarrow>
             finally_end w
               (case vectorDb_try w query of
                  Inl e \<Rightarrow> Inr failed_result
                | Inr res \<Rightarrow> Inr res)))"

datatype RagDriver = PgIlikeDriver | VectorDbDriver

definition name :: "RagDriver \<Rightarrow> string" where
  "name d = (case d of PgIlikeDriver \<Rightarrow> ''pgIlike'' | VectorDbDriver \<Rightarrow> ''vectorDB'')"

definition search :: "RagDriver \<Rightarrow> world \<Rightarrow> string \<Rightarrow> hints option \<Rightarrow> error + RAGResult" where
  "search d w query hints =
     (case d of
        PgIlikeDriver \<Rightarrow> PgIlikeDriver_search w query hints
      | VectorDbDriver \<Rightarrow> VectorDbDriver_search w query hints)"

subsection \<open>The circuit breaker\<close>

datatype CBState = CLOSED | OPEN | HALF_OPEN

record CircuitBreaker =
  state :: CBState
  failureCount :: int
  threshold :: int
  cooldownMs :: int
  nextTryAt :: int

definition new_CircuitBreaker :: "int option \<Rightarrow> int option \<Rightarrow> CircuitBreaker" where
  "new_CircuitBreaker opt_threshold opt_cooldownMs =
     \<lparr>state = CLOSED, failureCount = 0,
      threshold = (case opt_threshold of None \<Rightarrow> 3 | Some t \<Rightarrow> t),
      cooldownMs = (case opt_cooldownMs of None \<Rightarrow> 5000 | Some c \<Rightarrow> c),
      nextTryAt = 0\<rparr>"

definition onSuccess :: "CircuitBreaker \<Rightarrow> CircuitBreaker" where
  "onSuccess b = b\<lparr>failureCount := 0, state := CLOSED\<rparr>"

text \<open>\<open>now\<close> is the reading of \<^verbatim>\<open>Date.now()\<close> the method makes when it needs one.\<close>

definition onFailure :: "int \<Rightarrow> CircuitBreaker \<Rightarrow> CircuitBreaker" where
  "onFailure now b =
     (let b1 = b\<lparr>failureCount := failureCount b + 1\<rparr> in
      if failureCount b1 \<ge> threshold b1
      then b1\<lparr>state := OPEN, nextTryAt := now + cooldownMs b1\<rparr>
      else b1)"

definition canTry :: "int \<Rightarrow> CircuitBreaker \<Rightarrow> bool \<times> CircuitBreaker" where
  "canTry now b =
     (if state b = OPEN \<and> now \<ge> nextTryAt b then (True, b\<lparr>state := HALF_OPEN\<rparr>)
      else (state b \<noteq> OPEN, b))"

datatype breaker_call = OnSuccess | OnFailure int | CanTry int

fun breaker_step :: "CircuitBreaker \<Rightarrow> breaker_call \<Rightarrow> CircuitBreaker" where
  "breaker_step b OnSuccess = onSuccess b"
| "breaker_step b (OnFailure now) = onFailure now b"
| "breaker_step b (CanTry now) = snd (canTry now b)"

fun breaker_run :: "CircuitBreaker \<Rightarrow> breaker_call list \<Rightarrow> CircuitBreaker" where
  "breaker_run b [] = b"
| "breaker_run b (c # cs) = breaker_run (breaker_step b c) cs"

subsection \<open>The manager\<close>

record cache_entry =
  at_ms :: int
  result :: RAGResult

record RAGManager =
  cache :: "string \<rightharpoonup> cache_entry"
  circuitBreaker :: CircuitBreaker
  driver :: RagDriver
  ttlMs :: int

text \<open>
  The constructor: \<open>opt_provider\<close> and \<open>opt_ttlMs\<close> are the options, \<open>env_provider\<close>
  is \<^verbatim>\<open>process.env.RAG_PROVIDER\<close>.
\<close>

definition new_RAGManager :: "string option \<Rightarrow> string option \<Rightarrow> int option \<Rightarrow> RAGManager" where
  "new_RAGManager opt_provider env_provider opt_ttlMs =
     (let provider =
            (case opt_provider of
               Some p \<Rightarrow> p
             | None \<Rightarrow> (case env_provider of Some p \<Rightarrow> p | None \<Rightarrow> ''pgIlike''))
      in \<lparr>cache = Map.empty,
          circuitBreaker = new_CircuitBreaker None None,
          driver = (if provider = ''vectorDB'' then VectorDbDriver else PgIlikeDriver),
          ttlMs = (case opt_ttlMs of None \<Rightarrow> 15000 | Some t \<Rightarrow> t)\<rparr>)"

definition key :: "RAGManager \<Rightarrow> string \<Rightarrow> hints option \<Rightarrow> error + string" where
  "key m query hints =
     (case JSON_stringify (JSObject (case hints of None \<Rightarrow> [] | Some h \<Rightarrow> h)) of
        Inl e \<Rightarrow> Inl e
      | Inr s \<Rightarrow> Inr (name (driver m) @ '':'' @ query @ '':'' @ s))"

text \<open>\<^verbatim>\<open>{ ...(cached?.result ?? { ok: false, degraded: true, snippets: [] }), degraded: true }\<close>\<close>

definition fallback :: "cache_entry option \<Rightarrow> RAGResult" where
  "fallback cached =
     (case cached of None \<Rightarrow> failed_result | Some c \<Rightarrow> result c)\<lparr>degraded := Some True\<rparr>"

text \<open>
  \<^verbatim>\<open>retrieve\<close> from the breaker check on. The result is the value returned or the
  exception thrown, the manager afterwards, and whether \<^verbatim>\<open>driver.search\<close> was called.
\<close>

definition retrieve_uncached ::
  "world \<Rightarrow> RAGManager \<Rightarrow> string \<Rightarrow> hints option \<Rightarrow> string \<Rightarrow> cache_entry option \<Rightarrow> int
    \<Rightarrow> (error + RAGResult) \<times> RAGManager \<times> bool" where
  "retrieve_uncached w m query hints cacheKey cached now =
     (case canTry (now_canTry w) (circuitBreaker m) of
        (allowed, b) \<Rightarrow>
          if \<not> allowed then (Inr (fallback cached), m\<lparr>circuitBreaker := b\<rparr>, False)
          else
            (case search (driver m) w query hints of
               Inr res \<Rightarrow>
                 if ok res then
                   (Inr res,
                    m\<lparr>circuitBreaker := onSuccess b,
                      cache := (cache m)(cacheKey \<mapsto> \<lparr>at_ms = now, result = res\<rparr>)\<rparr>,
                    True)
                 else
                   (Inr (fallback cached),
                    m\<lparr>circuitBreaker := onFailure (now_onFailure w) b\<rparr>, True)
             | Inl e \<Rightarrow>
                 (Inr (fallback cached),
                  m\<lparr>circuitBreaker := onFailure (now_onFailure w) b\<rparr>, True)))"

definition retrieve ::
  "world \<Rightarrow> RAGManager \<Rightarrow> string \<Rightarrow> hints option
    \<Rightarrow> (error + RAGResult) \<times> RAGManager \<times> bool" where
  "retrieve w m query hints =
     (case key m query hints of
        Inl e \<Rightarrow> (Inl e, m, False)
      | Inr cacheKey \<Rightarrow>
          (let cached = cache m cacheKey; now = now_retrieve w in
           case cached of
             Some c \<Rightarrow>
               if now - at_ms c < ttlMs m then (Inr (result c), m, False)
               else retrieve_uncached w m query hints cacheKey cached now
           | None \<Rightarrow> retrieve_uncached w m query hints cacheKey cached now))"

definition clearCache :: "RAGManager \<Rightarrow> RAGManager" where
  "clearCache m = m\<lparr>cache := Map.empty\<rparr>"

definition getCircuitBreakerState :: "RAGManager \<Rightarrow> CBState" where
  "getCircuitBreakerState m = state (circuitBreaker m)"

text \<open>A history of calls on one manager, each run to completion before the next.\<close>

datatype manager_call = Retrieve world string "hints option" | ClearCache

fun manager_step :: "RAGManager \<Rightarrow> manager_call \<Rightarrow> RAGManager" where
  "manager_step m (Retrieve w query hints) = fst (snd (retrieve w m query hints))"
| "manager_step m ClearCache = clearCache m"

fun manager_run :: "RAGManager \<Rightarrow> manager_call list \<Rightarrow> RAGManager" where
  "manager_run m [] = m"
| "manager_run m (c # cs) = manager_run (manager_step m c) cs"

subsection \<open>Failing calls\<close>

text \<open>The strategy fails: it throws, or it returns a result that is not ok.\<close>

definition search_fails :: "RagDriver \<Rightarrow> world \<Rightarrow> string \<Rightarrow> hints option \<Rightarrow> bool" where
  "search_fails d w query hints =
     (case search d w query hints of Inl e \<Rightarrow> True | Inr res \<Rightarrow> \<not> ok res)"

text \<open>A \<^verbatim>\<open>retrieve\<close> call whose fingerprint has no cache entry in \<open>m\<close> and whose
  strategy call fails.\<close>

definition failing_miss :: "RAGManager \<Rightarrow> manager_call \<Rightarrow> bool" where
  "failing_miss m c =
     (case c of
        ClearCache \<Rightarrow> False
      | Retrieve w query hints \<Rightarrow>
          (case key m query hints of
             Inl e \<Rightarrow> False
           | Inr k \<Rightarrow> cache m k = None \<and> search_fails (driver m) w query hints))"

fun call_world :: "manager_call \<Rightarrow> world option" where
  "call_world (Retrieve w query hints) = Some w"
| "call_world ClearCache = None"

subsection \<open>Example inputs\<close>

definition example_row :: row where
  "example_row =
     \<lparr>r_key = ''k1'', r_layer = ''permanent'', r_content = JSString ''dark theme preference'',
      r_updated_at = Some 0, r_distance = Some (1 / 4)\<rparr>"

text \<open>A healthy store and embeddings service, every clock reading at 1000 ms.\<close>

definition example_world :: world where
  "example_world =
     \<lparr>POSTGRES_URL = Some ''postgres://db/cerebro'', OPENAI_API_KEY = Some ''sk-test'',
      now_retrieve = 1000, now_canTry = 1000, now_onFailure = 1000,
      postgres_connect = None,
      fetch_embeddings =
        Inr \<lparr>res_ok = True, res_status = 200, res_text = Inr [],
             res_json_embedding = Inr (Some [1, 0])\<rparr>,
      sql_select = Inr [example_row],
      sql_end = None\<rparr>"

text \<open>The store refuses the query; every clock reading at \<open>t\<close>.\<close>

definition failing_world :: "int \<Rightarrow> world" where
  "failing_world t =
     example_world\<lparr>now_retrieve := t, now_canTry := t, now_onFailure := t,
                   sql_select := Inl (Error ''connection refused'')\<rparr>"

definition example_manager :: RAGManager where
  "example_manager = new_RAGManager None None None"

text \<open>Three store failures on queries never seen before (scenario B); and the same after
  one successful call for Q5 (scenario C).\<close>

definition scenario_B :: "manager_call list" where
  "scenario_B =
     [Retrieve (failing_world 1000) ''Q1'' None,
      Retrieve (failing_world 1001) ''Q2'' None,
      Retrieve (failing_world 1002) ''Q3'' None]"

definition scenario_C :: "manager_call list" where
  "scenario_C =
     [Retrieve example_world ''Q5'' None,
      Retrieve (failing_world 25000) ''Q1'' None,
      Retrieve (failing_world 25001) ''Q2'' None,
      Retrieve (failing_world 25002) ''Q3'' None]"

section \<open>Properties of the circuit breaker\<close>

lemma breaker_step_invariant:
  assumes "state b \<noteq> CLOSED \<longrightarrow> threshold b \<le> failureCount b"
  shows "state (breaker_step b c) \<noteq> CLOSED \<longrightarrow>
         threshold (breaker_step b c) \<le> failureCount (breaker_step b c)"
  using assms by (cases c) (auto simp: onSuccess_def onFailure_def canTry_def Let_def)

lemma breaker_run_invariant:
  "(state b \<noteq> CLOSED \<longrightarrow> threshold b \<le> failureCount b) \<Longrightarrow>
   state (breaker_run b cs) \<noteq> CLOSED \<longrightarrow>
   threshold (breaker_run b cs) \<le> failureCount (breaker_run b cs)"
proof (induction cs arbitrary: b)
  case Nil
  then show ?case by simp
next
  case (Cons c cs)
  have "state (breaker_step b c) \<noteq> CLOSED \<longrightarrow>
        threshold (breaker_step b c) \<le> failureCount (breaker_step b c)"
    using Cons.prems by (rule breaker_step_invariant)
  then show ?case using Cons.IH by simp
qed

text \<open>
  Claim C10. In every breaker state reached from a newly constructed breaker (whatever its
  threshold and cooldown) by any sequence of \<^verbatim>\<open>onSuccess\<close>, \<^verbatim>\<open>onFailure\<close> and
  \<^verbatim>\<open>canTry\<close> calls, a state OPEN or HALF_OPEN has \<open>failureCount \<ge> threshold\<close>; so
  one \<^verbatim>\<open>onFailure\<close> in HALF_OPEN opens the breaker again, with
  \<open>nextTryAt = now + cooldownMs\<close>.
\<close>

theorem breaker_open_implies_threshold_reached:
  assumes "b = breaker_run (new_CircuitBreaker opt_threshold opt_cooldownMs) calls"
  shows "(state b = OPEN \<or> state b = HALF_OPEN \<longrightarrow> threshold b \<le> failureCount b) \<and>
         (state b = HALF_OPEN \<longrightarrow>
            state (onFailure now b) = OPEN \<and> nextTryAt (onFailure now b) = now + cooldownMs b)"
proof -
  have init: "state (new_CircuitBreaker opt_threshold opt_cooldownMs) \<noteq> CLOSED \<longrightarrow>
      threshold (new_CircuitBreaker opt_threshold opt_cooldownMs)
        \<le> failureCount (new_CircuitBreaker opt_threshold opt_cooldownMs)"
    by (simp add: new_CircuitBreaker_def)
  have inv: "state b \<noteq> CLOSED \<longrightarrow> threshold b \<le> failureCount b"
    unfolding assms using init by (rule breaker_run_invariant)
  have reopen: "state (onFailure now b) = OPEN \<and> nextTryAt (onFailure now b) = now + cooldownMs b"
    if "state b = HALF_OPEN"
    using that inv by (simp add: onFailure_def Let_def)
  show ?thesis using inv reopen by auto
qed

theorem breaker_open_implies_threshold_reached_witness:
  "state (breaker_run (new_CircuitBreaker None None)
            [OnFailure 1000, OnFailure 2000, OnFailure 3000, CanTry 8000]) = HALF_OPEN \<and>
   threshold (breaker_run (new_CircuitBreaker None None)
            [OnFailure 1000, OnFailure 2000, OnFailure 3000, CanTry 8000])
     \<le> failureCount (breaker_run (new_CircuitBreaker None None)
            [OnFailure 1000, OnFailure 2000, OnFailure 3000, CanTry 8000]) \<and>
   state (onFailure 9000 (breaker_run (new_CircuitBreaker None None)
            [OnFailure 1000, OnFailure 2000, OnFailure 3000, CanTry 8000])) = OPEN \<and>
   nextTryAt (onFailure 9000 (breaker_run (new_CircuitBreaker None None)
            [OnFailure 1000, OnFailure 2000, OnFailure 3000, CanTry 8000])) = 14000"
proof -
  have h: "state (breaker_run (new_CircuitBreaker None None)
            [OnFailure 1000, OnFailure 2000, OnFailure 3000, CanTry 8000]) = HALF_OPEN"
    by (simp add: new_CircuitBreaker_def onFailure_def canTry_def Let_def)
  have c: "cooldownMs (breaker_run (new_CircuitBreaker None None)
            [OnFailure 1000, OnFailure 2000, OnFailure 3000, CanTry 8000]) = 5000"
    by (simp add: new_CircuitBreaker_def onFailure_def canTry_def Let_def)
  show ?thesis
    using breaker_open_implies_threshold_reached
      [OF refl, of None None "[OnFailure 1000, OnFailure 2000, OnFailure 3000, CanTry 8000]" 9000]
      h c by simp
qed

text \<open>
  Claim C6, as amended. When the breaker is OPEN and the clock has reached \<open>nextTryAt\<close>,
  the next \<^verbatim>\<open>canTry()\<close> sets the state to HALF_OPEN and returns true; as long as
  neither \<^verbatim>\<open>onSuccess\<close> nor \<^verbatim>\<open>onFailure\<close> is called, any number of
  further \<^verbatim>\<open>canTry()\<close> calls leave the state HALF_OPEN, and each of them returns true
  as well: HALF_OPEN admits every check, not one.
\<close>

theorem half_open_admits_every_check:
  assumes "state b = OPEN" and "nextTryAt b \<le> now"
    and "\<forall>c \<in> set cs. \<exists>t. c = CanTry t"
  shows "canTry now b = (True, b\<lparr>state := HALF_OPEN\<rparr>) \<and>
         breaker_run (b\<lparr>state := HALF_OPEN\<rparr>) cs = b\<lparr>state := HALF_OPEN\<rparr> \<and>
         fst (canTry now' (breaker_run (b\<lparr>state := HALF_OPEN\<rparr>) cs)) = True"
proof -
  have first: "canTry now b = (True, b\<lparr>state := HALF_OPEN\<rparr>)"
    using assms(1,2) by (simp add: canTry_def)
  have stay: "breaker_run (b\<lparr>state := HALF_OPEN\<rparr>) cs = b\<lparr>state := HALF_OPEN\<rparr>"
    using assms(3)
  proof (induction cs)
    case Nil
    then show ?case by simp
  next
    case (Cons c cs)
    then obtain t where "c = CanTry t" by auto
    then have "breaker_step (b\<lparr>state := HALF_OPEN\<rparr>) c = b\<lparr>state := HALF_OPEN\<rparr>"
      by (simp add: canTry_def)
    then show ?case using Cons by simp
  qed
  have "fst (canTry now' (b\<lparr>state := HALF_OPEN\<rparr>)) = True"
    by (simp add: canTry_def)
  then show ?thesis using first stay by simp
qed

theorem half_open_admits_every_check_witness:
  "canTry 5000 \<lparr>state = OPEN, failureCount = 3, threshold = 3, cooldownMs = 5000, nextTryAt = 5000\<rparr>
     = (True, \<lparr>state = HALF_OPEN, failureCount = 3, threshold = 3, cooldownMs = 5000, nextTryAt = 5000\<rparr>) \<and>
   breaker_run \<lparr>state = HALF_OPEN, failureCount = 3, threshold = 3, cooldownMs = 5000, nextTryAt = 5000\<rparr>
       [CanTry 5001, CanTry 5002]
     = \<lparr>state = HALF_OPEN, failureCount = 3, threshold = 3, cooldownMs = 5000, nextTryAt = 5000\<rparr> \<and>
   fst (canTry 5003 \<lparr>state = HALF_OPEN, failureCount = 3, threshold = 3, cooldownMs = 5000, nextTryAt = 5000\<rparr>)
     = True"
proof -
  have h: "\<forall>c \<in> set [CanTry 5001, CanTry 5002]. \<exists>t. c = CanTry t" by simp
  show ?thesis
    using half_open_admits_every_check
      [of "\<lparr>state = OPEN, failureCount = 3, threshold = 3, cooldownMs = 5000, nextTryAt = 5000\<rparr>"
          5000 "[CanTry 5001, CanTry 5002]" 5003, OF _ _ h]
    by (simp add: canTry_def)
qed

text \<open>
  Claim C6 as stated fails: after the check at 5000 ms has moved the breaker to HALF_OPEN
  and returned true, the check at 5001 ms, with no \<^verbatim>\<open>onSuccess\<close> or
  \<^verbatim>\<open>onFailure\<close> in between, returns true again.
\<close>

theorem half_open_second_check_counterexample:
  "fst (canTry 5000 \<lparr>state = OPEN, failureCount = 3, threshold = 3, cooldownMs = 5000, nextTryAt = 5000\<rparr>) = True \<and>
   state (snd (canTry 5000 \<lparr>state = OPEN, failureCount = 3, threshold = 3, cooldownMs = 5000, nextTryAt = 5000\<rparr>)) = HALF_OPEN \<and>
   fst (canTry 5001 (snd (canTry 5000 \<lparr>state = OPEN, failureCount = 3, threshold = 3, cooldownMs = 5000, nextTryAt = 5000\<rparr>))) = True"
  by (simp add: canTry_def)

section \<open>Properties of the drivers\<close>


text \<open>
  Claim C7, as amended. For every query and hints, whenever the postgres handle is created
  and closed without error, \<^verbatim>\<open>VectorDbDriver.search\<close> returns a value; and on any
  error from the embedding call or from the similarity query that value has \<open>ok = false\<close>
  and no snippets.
\<close>

theorem vectorDb_search_fails_closed:
  assumes "postgres_connect w = None" and "sql_end w = None"
  shows "\<exists>res. VectorDbDriver_search w query hints = Inr res \<and>
           ((\<exists>e. embedText w query None = Inl e) \<or> (\<exists>e. sql_select w = Inl e)
              \<longrightarrow> \<not> ok res \<and> snippets res = [])"
  using assms
  by (auto simp: VectorDbDriver_search_def vectorDb_try_def finally_end_def failed_result_def
      split: sum.splits)

theorem vectorDb_search_fails_closed_witness:
  "postgres_connect (example_world\<lparr>fetch_embeddings := Inl (Error ''ECONNRESET'')\<rparr>) = None \<and>
   sql_end (example_world\<lparr>fetch_embeddings := Inl (Error ''ECONNRESET'')\<rparr>) = None \<and>
   embedText (example_world\<lparr>fetch_embeddings := Inl (Error ''ECONNRESET'')\<rparr>) ''theme'' None
     = Inl (Error ''ECONNRESET'') \<and>
   (\<exists>res. VectorDbDriver_search (example_world\<lparr>fetch_embeddings := Inl (Error ''ECONNRESET'')\<rparr>)
             ''theme'' None = Inr res \<and> \<not> ok res \<and> snippets res = [])"
proof -
  let ?w = "example_world\<lparr>fetch_embeddings := Inl (Error ''ECONNRESET'')\<rparr>"
  have c: "postgres_connect ?w = None" and e: "sql_end ?w = None"
    by (simp_all add: example_world_def)
  have f: "embedText ?w ''theme'' None = Inl (Error ''ECONNRESET'')"
    by (simp add: embedText_def example_world_def falsy_def)
  show ?thesis
    using vectorDb_search_fails_closed [OF c e, of "''theme''" None] c e f by auto
qed

text \<open>
  Claim C7 as stated fails: with a connection string that \<^verbatim>\<open>postgres(url)\<close> rejects,
  the handle is created outside the \<^verbatim>\<open>try\<close> block and the error reaches the caller.
\<close>

theorem vectorDb_search_throws_on_connect_error:
  "VectorDbDriver_search (example_world\<lparr>postgres_connect := Some (TypeError ''Invalid URL'')\<rparr>)
     ''theme'' None = Inl (TypeError ''Invalid URL'')"
  by (simp add: VectorDbDriver_search_def example_world_def falsy_def)




text \<open>
  Claim C9. With the connection string configured and a store query that fails,
  \<^verbatim>\<open>PgIlikeDriver.search\<close> has no \<^verbatim>\<open>catch\<close>: the error of the query is thrown
  to the caller, where \<^verbatim>\<open>VectorDbDriver.search\<close> returns \<open>ok = false\<close>.
\<close>

theorem pgIlike_search_throws_on_query_error:
  "PgIlikeDriver_search (failing_world 1000) ''theme'' None = Inl (Error ''connection refused'') \<and>
   VectorDbDriver_search (failing_world 1000) ''theme'' None = Inr failed_result"
  by (simp add: PgIlikeDriver_search_def VectorDbDriver_search_def vectorDb_try_def embedText_def
      failing_world_def example_world_def falsy_def finally_end_def)

section \<open>Properties of the manager\<close>

lemmas driver_defs =
  search_def PgIlikeDriver_search_def VectorDbDriver_search_def vectorDb_try_def embedText_def
  pgIlike_snippet_def vectorDb_snippet_def content_text_def distance_or_zero_def finally_end_def
  falsy_def failed_result_def

lemmas manager_defs =
  retrieve_def retrieve_uncached_def key_def name_def fallback_def clearCache_def
  new_RAGManager_def new_CircuitBreaker_def onSuccess_def onFailure_def canTry_def Let_def

lemmas example_defs =
  example_manager_def example_world_def failing_world_def example_row_def
  scenario_B_def scenario_C_def

lemma canTry_refuses_unchanged:
  "fst (canTry now b) = False \<Longrightarrow> canTry now b = (False, b)"
  by (auto simp: canTry_def split: if_splits)

lemma key_depends_on_driver: "driver m' = driver m \<Longrightarrow> key m' query hints = key m query hints"
  unfolding key_def by (simp only:)

lemma fallback_None: "fallback None = failed_result"
  by (simp add: fallback_def failed_result_def)

lemma retrieve_refused:
  assumes "key m query hints = Inr k"
    and "\<forall>c. cache m k = Some c \<longrightarrow> \<not> now_retrieve w - at_ms c < ttlMs m"
    and "fst (canTry (now_canTry w) (circuitBreaker m)) = False"
  shows "retrieve w m query hints = (Inr (fallback (cache m k)), m, False)"
proof -
  have gate: "canTry (now_canTry w) (circuitBreaker m) = (False, circuitBreaker m)"
    using assms(3) by (rule canTry_refuses_unchanged)
  have miss: "retrieve w m query hints =
      retrieve_uncached w m query hints k (cache m k) (now_retrieve w)"
    using assms(1,2) by (simp add: retrieve_def Let_def split: option.splits)
  show ?thesis unfolding miss by (simp add: retrieve_uncached_def gate)
qed

text \<open>
  Claim C1, as amended. For every query and every hints map that \<^verbatim>\<open>JSON.stringify\<close>
  serialises (so that the fingerprint is computed), and whatever the store, the embedding
  service, the clock, the cache and the breaker do, \<^verbatim>\<open>retrieve\<close> returns a result
  and throws nothing.
\<close>

theorem retrieve_returns_when_key_serialises:
  assumes "key m query hints = Inr k"
  shows "\<exists>r. fst (retrieve w m query hints) = Inr r"
  using assms
  by (simp add: retrieve_def retrieve_uncached_def Let_def
      split: option.splits sum.splits prod.splits)

theorem retrieve_returns_when_key_serialises_witness:
  "key example_manager ''theme'' (Some [(''userLevel'', JSNumber 2)])
     = Inr (''pgIlike:theme:{'' @ quote ''userLevel'' @ '':2}'') \<and>
   (\<exists>r. fst (retrieve (failing_world 1000) example_manager ''theme''
                 (Some [(''userLevel'', JSNumber 2)])) = Inr r)"
proof -
  have k: "key example_manager ''theme'' (Some [(''userLevel'', JSNumber 2)])
     = Inr (''pgIlike:theme:{'' @ quote ''userLevel'' @ '':2}'')"
    by code_simp
  show ?thesis
    using retrieve_returns_when_key_serialises [OF k, of "failing_world 1000"] k by simp
qed

text \<open>
  Claim C1 as stated fails: a hints map that holds a BigInt makes
  \<^verbatim>\<open>JSON.stringify\<close> throw while the fingerprint is computed, before the
  \<^verbatim>\<open>try\<close> block, and \<^verbatim>\<open>retrieve\<close> rejects with that TypeError.
\<close>

theorem retrieve_throws_on_bigint_hint:
  "fst (retrieve example_world example_manager ''theme'' (Some [(''budget'', JSBigInt 10)]))
     = Inl (TypeError ''Do not know how to serialize a BigInt'')"
  by (simp add: retrieve_def key_def)

text \<open>
  Claim C2. When the fingerprint of the query and hints has a cache entry younger than the
  TTL, \<^verbatim>\<open>retrieve\<close> returns the stored result itself, does not call the strategy and
  leaves the manager, its breaker included, as it was.
\<close>

theorem fresh_cache_hit_returns_cached:
  assumes "key m query hints = Inr k"
    and "cache m k = Some c"
    and "now_retrieve w - at_ms c < ttlMs m"
  shows "retrieve w m query hints = (Inr (result c), m, False)"
  using assms by (simp add: retrieve_def)

theorem fresh_cache_hit_returns_cached_witness:
  "retrieve (failing_world 9000) (manager_run example_manager [Retrieve example_world ''theme'' None])
     ''theme'' None =
   (Inr \<lparr>ok = True, degraded = None,
         snippets = [\<lparr>source = internalDocs, content = ''dark theme preference'',
                      confidence = 6 / 10,
                      metadata = Some \<lparr>md_key = ''k1'', md_layer = ''permanent'',
                                        md_updatedAt = Some 0, md_distance = None\<rparr>\<rparr>],
         citations = None\<rparr>,
    manager_run example_manager [Retrieve example_world ''theme'' None], False)"
proof -
  let ?m = "manager_run example_manager [Retrieve example_world ''theme'' None]"
  let ?res = "\<lparr>ok = True, degraded = None,
         snippets = [\<lparr>source = internalDocs, content = ''dark theme preference'',
                      confidence = 6 / 10,
                      metadata = Some \<lparr>md_key = ''k1'', md_layer = ''permanent'',
                                        md_updatedAt = Some 0, md_distance = None\<rparr>\<rparr>],
         citations = None\<rparr>"
  have m: "?m = \<lparr>cache = [''pgIlike:theme:{}'' \<mapsto> \<lparr>at_ms = 1000, result = ?res\<rparr>],
                circuitBreaker = new_CircuitBreaker None None,
                driver = PgIlikeDriver, ttlMs = 15000\<rparr>"
    by (simp add: manager_defs driver_defs example_defs)
  have k: "key ?m ''theme'' None = Inr ''pgIlike:theme:{}''"
    unfolding m by (simp add: key_def name_def)
  have c: "cache ?m ''pgIlike:theme:{}'' = Some \<lparr>at_ms = 1000, result = ?res\<rparr>"
    unfolding m by simp
  have f: "now_retrieve (failing_world 9000) - at_ms \<lparr>at_ms = 1000, result = ?res\<rparr> < ttlMs ?m"
    unfolding m by (simp add: example_defs)
  show ?thesis
    using fresh_cache_hit_returns_cached [OF k c f] by simp
qed

text \<open>
  Claim C3. When the fingerprint has no fresh cache entry and the breaker refuses the call,
  \<^verbatim>\<open>retrieve\<close> returns the cached result of that fingerprint, however old, with
  \<open>degraded\<close> set to true, or \<^verbatim>\<open>{ok: false, degraded: true, snippets: []}\<close> when
  there is none; the strategy is not called and the manager is unchanged.
\<close>

theorem open_breaker_returns_fallback:
  assumes "key m query hints = Inr k"
    and "\<forall>c. cache m k = Some c \<longrightarrow> \<not> now_retrieve w - at_ms c < ttlMs m"
    and "fst (canTry (now_canTry w) (circuitBreaker m)) = False"
  shows "retrieve w m query hints =
           (Inr (case cache m k of
                   Some c \<Rightarrow> (result c)\<lparr>degraded := Some True\<rparr>
                 | None \<Rightarrow> \<lparr>ok = False, degraded = Some True, snippets = [], citations = None\<rparr>),
            m, False)"
  using retrieve_refused [OF assms]
  by (simp add: fallback_def failed_result_def split: option.splits)

theorem open_breaker_returns_fallback_witness:
  "retrieve (example_world\<lparr>now_retrieve := 26000, now_canTry := 26000\<rparr>)
     (manager_run example_manager scenario_C) ''Q5'' None =
   (Inr \<lparr>ok = True, degraded = Some True,
         snippets = [\<lparr>source = internalDocs, content = ''dark theme preference'',
                      confidence = 6 / 10,
                      metadata = Some \<lparr>md_key = ''k1'', md_layer = ''permanent'',
                                        md_updatedAt = Some 0, md_distance = None\<rparr>\<rparr>],
         citations = None\<rparr>,
    manager_run example_manager scenario_C, False)"
proof -
  let ?m = "manager_run example_manager scenario_C"
  let ?w = "example_world\<lparr>now_retrieve := 26000, now_canTry := 26000\<rparr>"
  let ?res = "\<lparr>ok = True, degraded = None,
         snippets = [\<lparr>source = internalDocs, content = ''dark theme preference'',
                      confidence = 6 / 10,
                      metadata = Some \<lparr>md_key = ''k1'', md_layer = ''permanent'',
                                        md_updatedAt = Some 0, md_distance = None\<rparr>\<rparr>],
         citations = None\<rparr>"
  have m: "?m = \<lparr>cache = [''pgIlike:Q5:{}'' \<mapsto> \<lparr>at_ms = 1000, result = ?res\<rparr>],
                circuitBreaker = \<lparr>state = OPEN, failureCount = 3, threshold = 3,
                                  cooldownMs = 5000, nextTryAt = 30002\<rparr>,
                driver = PgIlikeDriver, ttlMs = 15000\<rparr>"
    by (simp add: manager_defs driver_defs example_defs)
  have k: "key ?m ''Q5'' None = Inr ''pgIlike:Q5:{}''"
    unfolding m by (simp add: key_def name_def)
  have stale: "\<forall>c. cache ?m ''pgIlike:Q5:{}'' = Some c \<longrightarrow> \<not> now_retrieve ?w - at_ms c < ttlMs ?m"
    unfolding m by (auto simp: example_defs)
  have gate: "fst (canTry (now_canTry ?w) (circuitBreaker ?m)) = False"
    unfolding m by (simp add: canTry_def example_defs)
  show ?thesis
    using open_breaker_returns_fallback [OF k stale gate] by (simp add: m)
qed

subsection \<open>What is written to the cache\<close>

lemma retrieve_cache_cases:
  "driver (fst (snd (retrieve w m query hints))) = driver m \<and>
   (cache (fst (snd (retrieve w m query hints))) = cache m \<or>
    (\<exists>k res. key m query hints = Inr k \<and> search (driver m) w query hints = Inr res \<and> ok res \<and>
       cache (fst (snd (retrieve w m query hints)))
         = (cache m)(k \<mapsto> \<lparr>at_ms = now_retrieve w, result = res\<rparr>)))"
  by (auto simp: retrieve_def retrieve_uncached_def Let_def
      split: option.splits sum.splits prod.splits)

lemma manager_step_driver: "driver (manager_step m c) = driver m"
  by (cases c) (simp_all add: retrieve_cache_cases clearCache_def)

lemma manager_run_driver: "driver (manager_run m cs) = driver m"
  by (induction cs arbitrary: m) (simp_all add: manager_step_driver)

lemma manager_run_append: "manager_run m (cs @ ds) = manager_run (manager_run m cs) ds"
  by (induction cs arbitrary: m) simp_all

lemma manager_step_provenance:
  assumes inv: "\<forall>k c. cache m k = Some c \<longrightarrow> ok (result c) \<and>
      (\<exists>w query hints. Retrieve w query hints \<in> S \<and> key m query hints = Inr k \<and>
         search (driver m) w query hints = Inr (result c) \<and> at_ms c = now_retrieve w)"
    and hit: "cache (manager_step m call) k = Some c"
  shows "ok (result c) \<and>
      (\<exists>w query hints. Retrieve w query hints \<in> insert call S \<and> key m query hints = Inr k \<and>
         search (driver m) w query hints = Inr (result c) \<and> at_ms c = now_retrieve w)"
proof (cases call)
  case ClearCache
  then show ?thesis using hit by (simp add: clearCache_def)
next
  case (Retrieve w query hints)
  let ?m' = "fst (snd (retrieve w m query hints))"
  from retrieve_cache_cases [of w m query hints]
  consider (same) "cache ?m' = cache m"
    | (written) k' res where "key m query hints = Inr k'"
        "search (driver m) w query hints = Inr res" "ok res"
        "cache ?m' = (cache m)(k' \<mapsto> \<lparr>at_ms = now_retrieve w, result = res\<rparr>)"
    by blast
  then show ?thesis
  proof cases
    case same
    then have "cache m k = Some c" using hit Retrieve by simp
    then show ?thesis using inv by blast
  next
    case written
    show ?thesis
    proof (cases "k = k'")
      case True
      then have "c = \<lparr>at_ms = now_retrieve w, result = res\<rparr>"
        using hit Retrieve written(4) by simp
      then show ?thesis using written True Retrieve by auto
    next
      case False
      then have "cache m k = Some c" using hit Retrieve written(4) by simp
      then show ?thesis using inv by blast
    qed
  qed
qed

lemma manager_run_provenance:
  assumes "\<forall>k c. cache m k = Some c \<longrightarrow> ok (result c) \<and>
      (\<exists>w query hints. Retrieve w query hints \<in> S \<and> key m query hints = Inr k \<and>
         search (driver m) w query hints = Inr (result c) \<and> at_ms c = now_retrieve w)"
    and "cache (manager_run m calls) k = Some c"
  shows "ok (result c) \<and>
      (\<exists>w query hints. Retrieve w query hints \<in> S \<union> set calls \<and> key m query hints = Inr k \<and>
         search (driver m) w query hints = Inr (result c) \<and> at_ms c = now_retrieve w)"
  using assms
proof (induction calls arbitrary: m S)
  case Nil
  then show ?case by simp
next
  case (Cons call calls)
  let ?m1 = "manager_step m call"
  have d: "driver ?m1 = driver m" by (rule manager_step_driver)
  have step: "\<forall>k c. cache ?m1 k = Some c \<longrightarrow> ok (result c) \<and>
      (\<exists>w query hints. Retrieve w query hints \<in> insert call S \<and> key ?m1 query hints = Inr k \<and>
         search (driver ?m1) w query hints = Inr (result c) \<and> at_ms c = now_retrieve w)"
    using manager_step_provenance [OF Cons.prems(1)]
    by (simp add: d key_depends_on_driver [OF d])
  have "cache (manager_run ?m1 calls) k = Some c" using Cons.prems(2) by simp
  from Cons.IH [OF step this] show ?case
    by (simp add: d key_depends_on_driver [OF d])
qed

text \<open>
  Claim C4. Starting from an empty cache, after any sequence of \<^verbatim>\<open>retrieve\<close> and
  \<^verbatim>\<open>clearCache\<close> calls, every entry of the cache holds a result with \<open>ok = true\<close>,
  and it is the result that the strategy returned to one of the \<^verbatim>\<open>retrieve\<close> calls
  of the sequence, stored under that call's fingerprint and clock reading: no failure and no
  fallback result is ever stored.
\<close>

theorem cache_holds_only_successes:
  assumes "cache m = Map.empty" and "cache (manager_run m calls) k = Some c"
  shows "ok (result c) \<and>
      (\<exists>w query hints. Retrieve w query hints \<in> set calls \<and> key m query hints = Inr k \<and>
         search (driver m) w query hints = Inr (result c) \<and> at_ms c = now_retrieve w)"
proof -
  have init: "\<forall>k c. cache m k = Some c \<longrightarrow> ok (result c) \<and>
      (\<exists>w query hints. Retrieve w query hints \<in> {} \<and> key m query hints = Inr k \<and>
         search (driver m) w query hints = Inr (result c) \<and> at_ms c = now_retrieve w)"
    using assms(1) by simp
  from manager_run_provenance [OF init assms(2)] show ?thesis by simp
qed

theorem cache_holds_only_successes_witness:
  "cache example_manager = Map.empty \<and>
   cache (manager_run example_manager (ClearCache # scenario_C)) ''pgIlike:Q5:{}'' =
     Some \<lparr>at_ms = 1000,
           result = \<lparr>ok = True, degraded = None,
             snippets = [\<lparr>source = internalDocs, content = ''dark theme preference'',
                          confidence = 6 / 10,
                          metadata = Some \<lparr>md_key = ''k1'', md_layer = ''permanent'',
                                            md_updatedAt = Some 0, md_distance = None\<rparr>\<rparr>],
             citations = None\<rparr>\<rparr> \<and>
   (\<exists>w query hints. Retrieve w query hints \<in> set (ClearCache # scenario_C) \<and>
      key example_manager query hints = Inr ''pgIlike:Q5:{}'' \<and> now_retrieve w = 1000)"
proof -
  have e: "cache example_manager = Map.empty"
    by (simp add: example_manager_def new_RAGManager_def)
  have c: "cache (manager_run example_manager (ClearCache # scenario_C)) ''pgIlike:Q5:{}'' =
     Some \<lparr>at_ms = 1000,
           result = \<lparr>ok = True, degraded = None,
             snippets = [\<lparr>source = internalDocs, content = ''dark theme preference'',
                          confidence = 6 / 10,
                          metadata = Some \<lparr>md_key = ''k1'', md_layer = ''permanent'',
                                            md_updatedAt = Some 0, md_distance = None\<rparr>\<rparr>],
             citations = None\<rparr>\<rparr>"
    by (simp add: manager_defs driver_defs example_defs)
  show ?thesis
    using cache_holds_only_successes [OF e c] e c by auto
qed

subsection \<open>Opening the breaker\<close>

lemma failing_miss_depends:
  "driver m' = driver m \<Longrightarrow> cache m' = cache m \<Longrightarrow> failing_miss m' c = failing_miss m c"
  unfolding failing_miss_def key_def by (simp only:)

lemma failing_retrieve_when_closed:
  assumes "state (circuitBreaker m) = CLOSED" and "failing_miss m (Retrieve w query hints)"
  shows "retrieve w m query hints =
           (Inr failed_result,
            m\<lparr>circuitBreaker := onFailure (now_onFailure w) (circuitBreaker m)\<rparr>, True)"
proof -
  from assms(2) obtain k where k: "key m query hints = Inr k" "cache m k = None"
    and f: "search_fails (driver m) w query hints"
    by (auto simp: failing_miss_def split: sum.splits)
  have gate: "canTry (now_canTry w) (circuitBreaker m) = (True, circuitBreaker m)"
    using assms(1) by (simp add: canTry_def)
  have "retrieve w m query hints = retrieve_uncached w m query hints k None (now_retrieve w)"
    using k by (simp add: retrieve_def)
  also have "\<dots> = (Inr failed_result,
            m\<lparr>circuitBreaker := onFailure (now_onFailure w) (circuitBreaker m)\<rparr>, True)"
    using f by (simp add: retrieve_uncached_def gate search_fails_def fallback_None split: sum.splits)
  finally show ?thesis .
qed

lemma failures_below_threshold:
  assumes "state (circuitBreaker m) = CLOSED"
    and "failureCount (circuitBreaker m) + int (length calls) < threshold (circuitBreaker m)"
    and "\<forall>c \<in> set calls. failing_miss m c"
  shows "manager_run m calls =
           m\<lparr>circuitBreaker := (circuitBreaker m)
              \<lparr>failureCount := failureCount (circuitBreaker m) + int (length calls)\<rparr>\<rparr>"
  using assms
proof (induction calls arbitrary: m)
  case Nil
  then show ?case by simp
next
  case (Cons c calls)
  from Cons.prems(3) have fm: "failing_miss m c" by simp
  then obtain w query hints where c: "c = Retrieve w query hints"
    by (cases c) (simp_all add: failing_miss_def)
  let ?b = "(circuitBreaker m)\<lparr>failureCount := failureCount (circuitBreaker m) + 1\<rparr>"
  let ?m1 = "m\<lparr>circuitBreaker := ?b\<rparr>"
  have below: "failureCount (circuitBreaker m) + 1 < threshold (circuitBreaker m)"
    using Cons.prems(2) by simp
  have "onFailure (now_onFailure w) (circuitBreaker m) = ?b"
    using below by (simp add: onFailure_def Let_def)
  then have step: "manager_step m c = ?m1"
    using failing_retrieve_when_closed [OF Cons.prems(1)] fm c by simp
  have p1: "state (circuitBreaker ?m1) = CLOSED" using Cons.prems(1) by simp
  have p2: "failureCount (circuitBreaker ?m1) + int (length calls) < threshold (circuitBreaker ?m1)"
    using Cons.prems(2) by simp
  have p3: "\<forall>c \<in> set calls. failing_miss ?m1 c"
    using Cons.prems(3) by (simp add: failing_miss_depends [of ?m1 m])
  have "manager_run m (c # calls) = manager_run ?m1 calls" using step by simp
  also have "\<dots> = ?m1\<lparr>circuitBreaker := (circuitBreaker ?m1)
              \<lparr>failureCount := failureCount (circuitBreaker ?m1) + int (length calls)\<rparr>\<rparr>"
    using Cons.IH [OF p1 p2 p3] .
  finally show ?case by (simp add: add.assoc add.commute)
qed

text \<open>
  Claim C5. Take a manager whose breaker is CLOSED with no failure counted and a threshold
  of at least 1 (the manager's own is 3), and as many \<^verbatim>\<open>retrieve\<close> calls as the
  threshold, each for a query with no cache entry and each with a failing strategy call.
  After them the breaker is OPEN, with \<open>nextTryAt\<close> the clock reading of the last
  failure plus the cooldown; and a \<^verbatim>\<open>retrieve\<close> for another query with no cache
  entry, whose breaker check reads the clock before \<open>nextTryAt\<close>, returns
  \<^verbatim>\<open>{ok: false, degraded: true, snippets: []}\<close> without calling the strategy.
\<close>

theorem breaker_opens_after_threshold_failures:
  assumes closed: "state (circuitBreaker m) = CLOSED" "failureCount (circuitBreaker m) = 0"
    and thr: "1 \<le> threshold (circuitBreaker m)"
    and len: "int (length calls) = threshold (circuitBreaker m)"
    and fails: "\<forall>c \<in> set calls. failing_miss m c"
    and new: "key m query hints = Inr k" "cache m k = None"
    and before: "now_canTry w < nextTryAt (circuitBreaker (manager_run m calls))"
  shows "state (circuitBreaker (manager_run m calls)) = OPEN \<and>
         (\<exists>w_last. call_world (last calls) = Some w_last \<and>
            nextTryAt (circuitBreaker (manager_run m calls))
              = now_onFailure w_last + cooldownMs (circuitBreaker m)) \<and>
         retrieve w (manager_run m calls) query hints =
           (Inr \<lparr>ok = False, degraded = Some True, snippets = [], citations = None\<rparr>,
            manager_run m calls, False)"
proof -
  from thr len have ne: "calls \<noteq> []" by auto
  define cs where "cs = butlast calls"
  define c where "c = last calls"
  have split: "calls = cs @ [c]" using ne by (simp add: cs_def c_def)
  have lcs: "int (length cs) + 1 = threshold (circuitBreaker m)"
    using len split by simp
  let ?b = "(circuitBreaker m)\<lparr>failureCount := int (length cs)\<rparr>"
  let ?m1 = "m\<lparr>circuitBreaker := ?b\<rparr>"
  have run1: "manager_run m cs = ?m1"
    using failures_below_threshold [of m cs] closed lcs fails split by simp
  from fails split have fm: "failing_miss m c" by simp
  then obtain w_last q h where c: "c = Retrieve w_last q h"
    by (cases c) (simp_all add: failing_miss_def)
  have fm1: "failing_miss ?m1 (Retrieve w_last q h)"
    using fm c by (simp add: failing_miss_depends [of ?m1 m])
  have cl1: "state (circuitBreaker ?m1) = CLOSED" using closed by simp
  let ?b2 = "(circuitBreaker m)\<lparr>failureCount := int (length cs) + 1, state := OPEN,
                nextTryAt := now_onFailure w_last + cooldownMs (circuitBreaker m)\<rparr>"
  have fail: "onFailure (now_onFailure w_last) ?b = ?b2"
    using lcs by (simp add: onFailure_def Let_def)
  have run: "manager_run m calls = m\<lparr>circuitBreaker := ?b2\<rparr>"
    using failing_retrieve_when_closed [OF cl1 fm1] run1 split c fail
    by (simp add: manager_run_append)
  have opened: "state (circuitBreaker (manager_run m calls)) = OPEN"
    and next_try: "nextTryAt (circuitBreaker (manager_run m calls))
        = now_onFailure w_last + cooldownMs (circuitBreaker m)"
    using run by simp_all
  have last_world: "call_world (last calls) = Some w_last"
    using c c_def by simp
  have k': "key (manager_run m calls) query hints = Inr k"
    using new(1) by (simp add: key_depends_on_driver [OF manager_run_driver])
  have miss: "cache (manager_run m calls) k = None" using run new(2) by simp
  have gate: "fst (canTry (now_canTry w) (circuitBreaker (manager_run m calls))) = False"
    using opened before by (simp add: canTry_def)
  have "retrieve w (manager_run m calls) query hints =
      (Inr (fallback (cache (manager_run m calls) k)), manager_run m calls, False)"
    using k' _ gate by (rule retrieve_refused) (simp add: miss)
  then have "retrieve w (manager_run m calls) query hints =
      (Inr \<lparr>ok = False, degraded = Some True, snippets = [], citations = None\<rparr>,
       manager_run m calls, False)"
    by (simp add: miss fallback_None failed_result_def)
  then show ?thesis using opened next_try last_world by blast
qed

theorem breaker_opens_after_threshold_failures_witness:
  "state (circuitBreaker (manager_run example_manager scenario_B)) = OPEN \<and>
   nextTryAt (circuitBreaker (manager_run example_manager scenario_B)) = 1002 + 5000 \<and>
   retrieve (example_world\<lparr>now_retrieve := 6001, now_canTry := 6001\<rparr>)
       (manager_run example_manager scenario_B) ''Q4'' None =
     (Inr \<lparr>ok = False, degraded = Some True, snippets = [], citations = None\<rparr>,
      manager_run example_manager scenario_B, False)"
proof -
  let ?w = "example_world\<lparr>now_retrieve := 6001, now_canTry := 6001\<rparr>"
  have b: "circuitBreaker example_manager =
      \<lparr>state = CLOSED, failureCount = 0, threshold = 3, cooldownMs = 5000, nextTryAt = 0\<rparr>"
    and cache0: "cache example_manager = Map.empty"
    and d: "driver example_manager = PgIlikeDriver"
    by (simp_all add: example_manager_def new_RAGManager_def new_CircuitBreaker_def)
  have h1: "state (circuitBreaker example_manager) = CLOSED"
    and h2: "failureCount (circuitBreaker example_manager) = 0"
    and h3: "1 \<le> threshold (circuitBreaker example_manager)"
    and h4: "int (length scenario_B) = threshold (circuitBreaker example_manager)"
    by (simp_all add: b scenario_B_def)
  have h5: "\<forall>c \<in> set scenario_B. failing_miss example_manager c"
    by (simp add: scenario_B_def failing_miss_def search_fails_def key_def name_def d cache0
        driver_defs failing_world_def example_world_def)
  have h6: "key example_manager ''Q4'' None = Inr ''pgIlike:Q4:{}''"
    by (simp add: key_def name_def d)
  have h7: "cache example_manager ''pgIlike:Q4:{}'' = None" by (simp add: cache0)
  have run: "circuitBreaker (manager_run example_manager scenario_B) =
      \<lparr>state = OPEN, failureCount = 3, threshold = 3, cooldownMs = 5000, nextTryAt = 6002\<rparr>"
    by (simp add: manager_defs driver_defs example_defs)
  have h8: "now_canTry ?w < nextTryAt (circuitBreaker (manager_run example_manager scenario_B))"
    by (simp add: run example_world_def)
  show ?thesis
    using breaker_opens_after_threshold_failures [OF h1 h2 h3 h4 h5 h6 h7 h8] run
    by simp
qed

end
